theory Spec2Isabelle
  imports Main "HOL-Library.Word" "HOL-Library.DAList"
begin

section \<open>The table entity codec of the storage service\<close>

text \<open>
  A shallow embedding of \<^verbatim>\<open>flattenEntity\<close> from
  \<^verbatim>\<open>internal/services/storage/storage_table_entity_resource.go\<close>, together with the
  parts of Go's \<^verbatim>\<open>strings\<close> and \<^verbatim>\<open>fmt\<close> packages that it calls.
\<close>

subsection \<open>Go strings\<close>

text \<open>\<^verbatim>\<open>strings.HasPrefix\<close> and \<^verbatim>\<open>strings.HasSuffix\<close>: a length test and a slice comparison.\<close>

definition HasPrefix :: "string \<Rightarrow> string \<Rightarrow> bool" where
  "HasPrefix s pre = (length pre \<le> length s \<and> take (length pre) s = pre)"

definition HasSuffix :: "string \<Rightarrow> string \<Rightarrow> bool" where
  "HasSuffix s suf = (length suf \<le> length s \<and> drop (length s - length suf) s = suf)"

subsection \<open>Go values held in an interface\<close>

text \<open>
  A \<^verbatim>\<open>float64\<close> is its IEEE-754 binary64 bit pattern, an \<^verbatim>\<open>int64\<close> a 64-bit word read
  as a signed number. The values of a decoded entity are the scalars of a JSON document:
  null, a boolean, a number (always a \<^verbatim>\<open>float64\<close>) or a string.
\<close>

type_synonym float64 = "64 word"
type_synonym int64 = "64 word"

datatype go_value = GoNil | GoBool bool | GoFloat64 float64 | GoString string

subsection \<open>IEEE-754 binary64\<close>

definition f64_negative :: "float64 \<Rightarrow> bool" where
  "f64_negative w = (2 ^ 63 \<le> unat w)"

definition f64_exponent :: "float64 \<Rightarrow> nat" where
  "f64_exponent w = (unat w div 2 ^ 52) mod 2 ^ 11"

definition f64_fraction :: "float64 \<Rightarrow> nat" where
  "f64_fraction w = unat w mod 2 ^ 52"

definition f64_is_nan :: "float64 \<Rightarrow> bool" where
  "f64_is_nan w = (f64_exponent w = 2047 \<and> f64_fraction w \<noteq> 0)"

definition f64_is_inf :: "float64 \<Rightarrow> bool" where
  "f64_is_inf w = (f64_exponent w = 2047 \<and> f64_fraction w = 0)"

definition f64_is_zero :: "float64 \<Rightarrow> bool" where
  "f64_is_zero w = (f64_exponent w = 0 \<and> f64_fraction w = 0)"

text \<open>A finite float is \<open>\<plusminus> f64_mantissa * 2 ^ f64_scale\<close>.\<close>

definition f64_mantissa :: "float64 \<Rightarrow> nat" where
  "f64_mantissa w = (if f64_exponent w = 0 then f64_fraction w else 2 ^ 52 + f64_fraction w)"

definition f64_scale :: "float64 \<Rightarrow> int" where
  "f64_scale w = (if f64_exponent w = 0 then - 1074 else int (f64_exponent w) - 1075)"

text \<open>The comparison \<^verbatim>\<open>==\<close> on floats: a NaN equals nothing, the two zeros are equal.\<close>

definition float64_eq :: "float64 \<Rightarrow> float64 \<Rightarrow> bool" where
  "float64_eq a b =
     (\<not> f64_is_nan a \<and> \<not> f64_is_nan b \<and> (a = b \<or> (f64_is_zero a \<and> f64_is_zero b)))"

text \<open>
  The conversion \<^verbatim>\<open>int64(f)\<close> truncates towards zero. Where the truncation is no
  \<^verbatim>\<open>int64\<close> (and for NaN and the infinities) Go leaves the result to the platform; the
  model takes the value amd64 gives, the smallest \<^verbatim>\<open>int64\<close>.
\<close>

definition f64_trunc :: "float64 \<Rightarrow> int" where
  "f64_trunc w =
     (let m = int (f64_mantissa w); e = f64_scale w;
          a = (if 0 \<le> e then m * 2 ^ nat e else m div 2 ^ nat (- e))
      in if f64_negative w then - a else a)"

definition int64_indefinite :: int64 where
  "int64_indefinite = 0x8000000000000000"

definition int64_of_float64 :: "float64 \<Rightarrow> int64" where
  "int64_of_float64 w =
     (if f64_exponent w = 2047 then int64_indefinite
      else let t = f64_trunc w
           in if - (2 ^ 63) \<le> t \<and> t < 2 ^ 63 then word_of_int t else int64_indefinite)"

text \<open>The conversion \<^verbatim>\<open>float64(i)\<close> rounds to the nearest float, ties to even.\<close>

fun bit_length :: "nat \<Rightarrow> nat" where
  "bit_length n = (if n = 0 then 0 else 1 + bit_length (n div 2))"

definition round_half_even :: "nat \<Rightarrow> nat \<Rightarrow> nat" where
  "round_half_even x d =
     (let q = x div d; r = x mod d in if d < 2 * r \<or> (2 * r = d \<and> odd q) then q + 1 else q)"

definition float64_of_int64 :: "int64 \<Rightarrow> float64" where
  "float64_of_int64 i =
     (let z = sint i; n = nat \<bar>z\<bar> in
      if n = 0 then 0
      else let b = bit_length n;
               q = (if b \<le> 53 then n * 2 ^ (53 - b) else round_half_even n (2 ^ (b - 53)));
               m = (if q = 2 ^ 53 then 2 ^ 52 else q);
               ex = (if q = 2 ^ 53 then b else b - 1)
           in of_nat ((if z < 0 then 2 ^ 63 else 0) + (ex + 1023) * 2 ^ 52 + (m - 2 ^ 52)))"

subsection \<open>Go's fmt package\<close>

fun decimal :: "nat \<Rightarrow> string" where
  "decimal n =
     (if n < 10 then [''0123456789'' ! n]
      else decimal (n div 10) @ [''0123456789'' ! (n mod 10)])"

text \<open>The verb \<^verbatim>\<open>%d\<close> on an \<^verbatim>\<open>int64\<close>.\<close>

definition Sprintf_d :: "int64 \<Rightarrow> string" where
  "Sprintf_d i = (let z = sint i in if z < 0 then ''-'' @ decimal (nat (- z)) else decimal (nat z))"

text \<open>
  The verb \<^verbatim>\<open>%f\<close> on a float: six digits after the point, the exact value rounded to
  the nearest, ties to even.
\<close>

definition fmt_inf_nan :: "float64 \<Rightarrow> string" where
  "fmt_inf_nan w = (if f64_is_nan w then ''NaN'' else if f64_negative w then ''-Inf'' else ''+Inf'')"

definition fmt_f :: "float64 \<Rightarrow> string" where
  "fmt_f w =
     (if f64_exponent w = 2047 then fmt_inf_nan w
      else let m = f64_mantissa w; e = f64_scale w;
               n = (if 0 \<le> e then m * 10 ^ 6 * 2 ^ nat e
                    else round_half_even (m * 10 ^ 6) (2 ^ nat (- e)));
               frac = decimal (n mod 10 ^ 6)
           in (if f64_negative w then ''-'' else '''') @ decimal (n div 10 ^ 6) @ ''.'' @
              replicate (6 - length frac) CHR ''0'' @ frac)"

text \<open>
  The verb \<^verbatim>\<open>%v\<close> on a float is \<^verbatim>\<open>%g\<close> with the shortest digits that read back as
  the same float. \<open>shortest_at m e narrow j\<close> is the multiple of \<open>10 ^ j\<close> (counted in units
  of \<open>10 ^ j\<close>) nearest to \<open>m * 2 ^ e\<close> among those that round back to it, if there is one:
  the float's rounding interval reaches half way to each neighbour (a quarter of the
  spacing downwards when the float starts a binade) and holds its ends when \<open>m\<close> is even.
  When the value lies half way between two such multiples, the one with the even last
  digit is taken, as \<^verbatim>\<open>strconv\<close> rounds half to even.
\<close>

definition shortest_at :: "nat \<Rightarrow> int \<Rightarrow> bool \<Rightarrow> int \<Rightarrow> nat option" where
  "shortest_at m e narrow j =
     (let s = 2 ^ nat (e - 2) * 10 ^ nat (- j);
          b = 2 ^ nat (2 - e) * 10 ^ nat j;
          v = 4 * m * s;
          hi = (4 * m + 2) * s;
          lo = (if narrow then 4 * m - 1 else 4 * m - 2) * s;
          ok = (\<lambda>d. if even m then lo \<le> d * b \<and> d * b \<le> hi else lo < d * b \<and> d * b < hi);
          dn = v div b;
          up = (if v mod b = 0 then dn else dn + 1)
      in if ok dn \<and> ok up
         then Some (if v - dn * b < up * b - v then dn
                    else if up * b - v < v - dn * b then up
                    else if even dn then dn else up)
         else if ok dn then Some dn
         else if ok up then Some up
         else None)"

fun first_some :: "('a \<Rightarrow> 'b option) \<Rightarrow> 'a list \<Rightarrow> ('b \<times> 'a) option" where
  "first_some f [] = None"
| "first_some f (x # xs) = (case f x of Some y \<Rightarrow> Some (y, x) | None \<Rightarrow> first_some f xs)"

text \<open>
  The shortest digits \<open>d\<close> and their decimal exponent \<open>j\<close>, the value printed being
  \<open>d * 10 ^ j\<close>: the largest \<open>j\<close> that has a multiple in the rounding interval. The exact
  decimal expansion ends the search at the latest.
\<close>

definition shortest_decimal :: "float64 \<Rightarrow> nat \<times> int" where
  "shortest_decimal w =
     (let m = f64_mantissa w; e = f64_scale w;
          narrow = (f64_fraction w = 0 \<and> 1 < f64_exponent w)
      in case first_some (shortest_at m e narrow) (rev [min e 0 .. max (e + 53) 0]) of
           Some dj \<Rightarrow> dj
         | None \<Rightarrow> (m * 2 ^ nat e * 5 ^ nat (- e), min e 0))"

definition fmt_exponent :: "int \<Rightarrow> string" where
  "fmt_exponent x =
     (if x < 0 then ''-'' else ''+'') @ (if \<bar>x\<bar> < 10 then ''0'' else '''') @ decimal (nat \<bar>x\<bar>)"

definition fmt_g :: "string \<Rightarrow> int \<Rightarrow> string" where
  "fmt_g ds dp =
     (let nd = length ds; x = dp - 1 in
      if x < - 4 \<or> 6 \<le> x
      then take 1 ds @ (if 1 < nd then ''.'' @ drop 1 ds else '''') @ ''e'' @ fmt_exponent x
      else if 0 < dp
      then take (nat dp) ds @ replicate (nat dp - nd) CHR ''0'' @
           (if nat dp < nd then ''.'' @ drop (nat dp) ds else '''')
      else ''0.'' @ replicate (nat (- dp)) CHR ''0'' @ ds)"

definition fmt_v :: "float64 \<Rightarrow> string" where
  "fmt_v w =
     (if f64_exponent w = 2047 then fmt_inf_nan w
      else (if f64_negative w then ''-'' else '''') @
           (if f64_mantissa w = 0 then ''0''
            else let dj = shortest_decimal w; ds = decimal (fst dj)
                 in fmt_g ds (int (length ds) + snd dj)))"

text \<open>\<^verbatim>\<open>fmt.Sprint(v)\<close> of one value, and \<^verbatim>\<open>fmt.Sprintf("%f", v)\<close>, which reports a
  value that is no float as a bad verb.\<close>

fun Sprint :: "go_value \<Rightarrow> string" where
  "Sprint GoNil = ''<nil>''"
| "Sprint (GoBool b) = (if b then ''true'' else ''false'')"
| "Sprint (GoFloat64 f) = fmt_v f"
| "Sprint (GoString s) = s"

fun Sprintf_f :: "go_value \<Rightarrow> string" where
  "Sprintf_f GoNil = ''%!f(<nil>)''"
| "Sprintf_f (GoBool b) = ''%!f(bool='' @ Sprint (GoBool b) @ '')''"
| "Sprintf_f (GoFloat64 f) = fmt_f f"
| "Sprintf_f (GoString s) = ''%!f(string='' @ s @ '')''"

subsection \<open>flattenEntity\<close>

text \<open>
  The entity is a Go map that the function ranges over: an association list with
  distinct keys, its order the order of the iteration. The result is a map that is only
  written to.
\<close>

type_synonym entity = "(string, go_value) alist"
type_synonym flattened = "string \<rightharpoonup> go_value"

text \<open>The body of the loop, for the key \<open>k\<close> with the value \<open>v\<close>.\<close>

definition flatten_property :: "entity \<Rightarrow> string \<Rightarrow> go_value \<Rightarrow> flattened \<Rightarrow> flattened" where
  "flatten_property entity k v result =
     (if HasPrefix k ''odata.'' \<or> HasSuffix k ''@odata.type'' then result
      else case DAList.lookup entity (k @ ''@odata.type'') of
        Some dtype \<Rightarrow>
          (if dtype = GoString ''Edm.Boolean''
           then (result(k \<mapsto> GoString (Sprint v)))(k @ ''@odata.type'' \<mapsto> dtype)
           else if dtype = GoString ''Edm.Double''
           then (result(k \<mapsto> GoString (Sprintf_f v)))(k @ ''@odata.type'' \<mapsto> dtype)
           else if dtype = GoString ''Edm.Int32'' \<or> dtype = GoString ''Edm.Int64''
           then (result(k \<mapsto> GoString (Sprint v)))(k @ ''@odata.type'' \<mapsto> dtype)
           else if dtype = GoString ''Edm.String''
           then (result(k \<mapsto> v))(k @ ''@odata.type'' \<mapsto> dtype)
           else result)
      | None \<Rightarrow>
          (case v of
             GoBool c \<Rightarrow>
               (result(k \<mapsto> GoString (Sprint v)))(k @ ''@odata.type'' \<mapsto> GoString ''Edm.Boolean'')
           | GoFloat64 f64 \<Rightarrow>
               (if float64_eq f64 (float64_of_int64 (int64_of_float64 f64))
                then (result(k \<mapsto> GoString (Sprintf_d (int64_of_float64 f64))))
                       (k @ ''@odata.type'' \<mapsto> GoString ''Edm.Int32'')
                else (result(k \<mapsto> GoString (Sprint v)))
                       (k @ ''@odata.type'' \<mapsto> GoString ''Edm.Double''))
           | GoString c \<Rightarrow> result(k \<mapsto> v)
           | GoNil \<Rightarrow> result))"

text \<open>
  The function deletes the three reserved keys from the map it is given, then ranges
  over what is left. It returns the result; the model returns the caller's map as the
  call leaves it as well.
\<close>

definition flattenEntity :: "entity \<Rightarrow> entity \<times> flattened" where
  "flattenEntity entity0 =
     (let entity = DAList.delete ''Timestamp''
                     (DAList.delete ''RowKey'' (DAList.delete ''PartitionKey'' entity0));
          result = fold (\<lambda>(k, v). flatten_property entity k v) (DAList.impl_of entity) Map.empty
      in (entity, result))"

subsection \<open>The spec's vocabulary\<close>


text \<open>
  The spec processes the keys that are neither reserved nor metadata, and calls a
  property translatable when it is not skipped: its annotation, if it has one, names one
  of the five types, and without an annotation its value is a boolean, a number or a
  string.
\<close>

definition property_key :: "string \<Rightarrow> bool" where
  "property_key k =
     (k \<notin> {''PartitionKey'', ''RowKey'', ''Timestamp''} \<and>
      \<not> HasPrefix k ''odata.'' \<and> \<not> HasSuffix k ''@odata.type'')"

definition recognized_type :: "go_value \<Rightarrow> bool" where
  "recognized_type d =
     (d \<in> {GoString ''Edm.Boolean'', GoString ''Edm.Double'', GoString ''Edm.Int32'',
            GoString ''Edm.Int64'', GoString ''Edm.String''})"

definition translatable :: "entity \<Rightarrow> string \<Rightarrow> bool" where
  "translatable e k =
     (property_key k \<and>
      (case DAList.lookup e k of
         None \<Rightarrow> False
       | Some v \<Rightarrow>
           (case DAList.lookup e (k @ ''@odata.type'') of
              Some d \<Rightarrow> recognized_type d
            | None \<Rightarrow> v \<noteq> GoNil)))"

section \<open>Properties\<close>

subsection \<open>Evaluation on numerals\<close>

text \<open>
  The recursive equations of \<open>decimal\<close> and \<open>bit_length\<close> are used on numerals only,
  where they end.
\<close>

declare decimal.simps [simp del] bit_length.simps [simp del]

lemma decimal_numeral [simp]:
  "decimal (numeral n) =
     (if (numeral n :: nat) < 10 then [''0123456789'' ! numeral n]
      else decimal (numeral n div 10) @ [''0123456789'' ! (numeral n mod 10)])"
  "decimal 0 = ''0''" "decimal (Suc 0) = ''1''"
  by (simp_all add: decimal.simps [of "numeral n"] decimal.simps [of 0] decimal.simps [of "Suc 0"])

lemma bit_length_numeral [simp]:
  "bit_length (numeral n) = 1 + bit_length (numeral n div 2)"
  "bit_length 0 = 0" "bit_length (Suc 0) = 1"
  by (simp_all add: bit_length.simps [of "numeral n"] bit_length.simps [of 0] bit_length.simps [of "Suc 0"])

lemmas f64_defs = f64_negative_def f64_exponent_def f64_fraction_def f64_is_nan_def f64_is_inf_def
  f64_is_zero_def f64_mantissa_def f64_scale_def

lemmas fmt_defs = fmt_v_def fmt_f_def fmt_g_def fmt_exponent_def fmt_inf_nan_def shortest_decimal_def
  shortest_at_def round_half_even_def Let_def

lemmas conv_defs = float64_eq_def float64_of_int64_def int64_of_float64_def int64_indefinite_def
  f64_trunc_def round_half_even_def Sprintf_d_def Let_def

subsection \<open>Floats and their bits\<close>

lemma f64_exponent_less: "f64_exponent w < 2048"
  by (simp add: f64_exponent_def)





















subsection \<open>Keys\<close>

lemma HasSuffix_append [simp]: "HasSuffix (k @ suf) suf"
  by (simp add: HasSuffix_def)

lemma HasPrefix_odata_append:
  assumes "HasPrefix (k @ ''@odata.type'') ''odata.''"
  shows "HasPrefix k ''odata.''"
proof (cases "6 \<le> length k")
  case True
  with assms show ?thesis by (simp add: HasPrefix_def)
next
  case False
  then have short: "length k < 6" by simp
  from assms have eq: "take 6 (k @ ''@odata.type'') = ''odata.''"
    by (simp add: HasPrefix_def eval_nat_numeral)
  have "take 6 (k @ ''@odata.type'') ! length k = (k @ ''@odata.type'') ! length k"
    by (rule nth_take) (rule short)
  also have "\<dots> = CHR ''@''" by (simp add: nth_append)
  finally have "''odata.'' ! length k = CHR ''@''" using eq by simp
  moreover have "''odata.'' ! length k \<in> set ''odata.''"
    using short by (intro nth_mem) simp
  ultimately have "CHR ''@'' \<in> set ''odata.''" by (simp only:)
  then show ?thesis by simp
qed

lemma reserved_no_suffix:
  "\<not> HasSuffix ''PartitionKey'' ''@odata.type''"
  "\<not> HasSuffix ''RowKey'' ''@odata.type''"
  "\<not> HasSuffix ''Timestamp'' ''@odata.type''"
  by (simp_all add: HasSuffix_def)

subsection \<open>The loop\<close>

text \<open>
  One pass of the body adds its writes to the result, writes only the key and its
  companion, and the writes of two keys never meet: so the result does not depend on
  the order of the iteration.
\<close>

lemma flatten_property_add:
  "flatten_property e k v r = r ++ flatten_property e k v Map.empty"
  by (simp add: flatten_property_def map_add_upd split: option.split go_value.split)

lemma flatten_property_dom:
  assumes "x \<in> dom (flatten_property e k v Map.empty)"
  shows "\<not> HasPrefix k ''odata.'' \<and> \<not> HasSuffix k ''@odata.type'' \<and> (x = k \<or> x = k @ ''@odata.type'')"
  using assms
  by (auto simp: flatten_property_def split: if_splits option.splits go_value.splits)

lemma flatten_property_disjoint:
  assumes "k \<noteq> k'" and "x \<in> dom (flatten_property e k v Map.empty)"
  shows "x \<notin> dom (flatten_property e k' v' Map.empty)"
proof
  assume "x \<in> dom (flatten_property e k' v' Map.empty)"
  from flatten_property_dom [OF this] flatten_property_dom [OF assms(2)] assms(1)
  show False by auto
qed

lemma flatten_fold_untouched:
  "(\<And>k v. (k, v) \<in> set kvs \<Longrightarrow> x \<notin> dom (flatten_property e k v Map.empty)) \<Longrightarrow>
   fold (\<lambda>(k, v). flatten_property e k v) kvs r x = r x"
proof (induction kvs arbitrary: r)
  case Nil
  show ?case by simp
next
  case (Cons a kvs)
  obtain k v where a: "a = (k, v)" by (cases a)
  have "x \<notin> dom (flatten_property e k v Map.empty)" using Cons.prems a by simp
  then have "flatten_property e k v r x = r x"
    by (subst flatten_property_add) (simp add: map_add_def domIff)
  with Cons show ?case by (simp add: a)
qed

lemma flatten_fold_written:
  "distinct (map fst kvs) \<Longrightarrow> (k, v) \<in> set kvs \<Longrightarrow>
   flatten_property e k v Map.empty x = Some y \<Longrightarrow>
   fold (\<lambda>(k, v). flatten_property e k v) kvs r x = Some y"
proof (induction kvs arbitrary: r)
  case Nil
  then show ?case by simp
next
  case (Cons a kvs)
  obtain k' v' where a: "a = (k', v')" by (cases a)
  show ?case
  proof (cases "a = (k, v)")
    case True
    have here: "flatten_property e k v r x = Some y"
      using Cons.prems(3) by (subst flatten_property_add) (simp add: map_add_def)
    have "fold (\<lambda>(k, v). flatten_property e k v) kvs (flatten_property e k v r) x
            = flatten_property e k v r x"
    proof (rule flatten_fold_untouched)
      fix k'' v'' assume mem: "(k'', v'') \<in> set kvs"
      with Cons.prems(1) True have "k \<noteq> k''" by (auto simp: image_iff)
      moreover have "x \<in> dom (flatten_property e k v Map.empty)" using Cons.prems(3) by auto
      ultimately show "x \<notin> dom (flatten_property e k'' v'' Map.empty)"
        by (rule flatten_property_disjoint)
    qed
    with here True show ?thesis by simp
  next
    case False
    with Cons.prems have "(k, v) \<in> set kvs" "distinct (map fst kvs)" by auto
    from Cons.IH [OF this(2) this(1) Cons.prems(3)] show ?thesis by (simp add: a)
  qed
qed

lemma flatten_fold_origin:
  "fold (\<lambda>(k, v). flatten_property e k v) kvs r x = Some y \<Longrightarrow>
   r x = Some y \<or> (\<exists>k v. (k, v) \<in> set kvs \<and> flatten_property e k v Map.empty x = Some y)"
proof (induction kvs arbitrary: r)
  case Nil
  then show ?case by simp
next
  case (Cons a kvs)
  obtain k v where a: "a = (k, v)" by (cases a)
  from Cons.prems have "fold (\<lambda>(k, v). flatten_property e k v) kvs (flatten_property e k v r) x = Some y"
    by (simp add: a)
  from Cons.IH [OF this] show ?case
  proof
    assume "flatten_property e k v r x = Some y"
    then have "(r ++ flatten_property e k v Map.empty) x = Some y"
      by (subst (asm) flatten_property_add)
    then show ?thesis using a by (auto simp: map_add_def split: option.splits)
  next
    assume "\<exists>k v. (k, v) \<in> set kvs \<and> flatten_property e k v Map.empty x = Some y"
    then show ?thesis by auto
  qed
qed

subsection \<open>The whole function\<close>

lemma impl_of_lookup: "(k, v) \<in> set (DAList.impl_of e) \<longleftrightarrow> DAList.lookup e k = Some v"
  by (simp add: DAList.lookup.rep_eq)

lemma flattenEntity_fst:
  "DAList.lookup (fst (flattenEntity e)) k =
     (if k \<in> {''PartitionKey'', ''RowKey'', ''Timestamp''} then None else DAList.lookup e k)"
  by (simp add: flattenEntity_def Let_def)

lemma flattenEntity_snd:
  "snd (flattenEntity e) =
     fold (\<lambda>(k, v). flatten_property (fst (flattenEntity e)) k v)
       (DAList.impl_of (fst (flattenEntity e))) Map.empty"
  by (simp add: flattenEntity_def Let_def)

lemma flatten_property_lookup_cong:
  "DAList.lookup e1 = DAList.lookup e2 \<Longrightarrow> flatten_property e1 k v r = flatten_property e2 k v r"
  by (simp add: flatten_property_def)

lemma flattenEntity_written:
  assumes "DAList.lookup e k = Some v"
    and "k \<notin> {''PartitionKey'', ''RowKey'', ''Timestamp''}"
    and "flatten_property (fst (flattenEntity e)) k v Map.empty x = Some y"
  shows "snd (flattenEntity e) x = Some y"
proof -
  have "(k, v) \<in> set (DAList.impl_of (fst (flattenEntity e)))"
    using assms(1,2) by (simp add: impl_of_lookup flattenEntity_fst)
  then show ?thesis
    unfolding flattenEntity_snd using assms(3)
    by (intro flatten_fold_written) simp_all
qed

lemma flattenEntity_origin:
  assumes "snd (flattenEntity e) x = Some y"
  shows "\<exists>k v. DAList.lookup e k = Some v \<and> k \<notin> {''PartitionKey'', ''RowKey'', ''Timestamp''} \<and>
           flatten_property (fst (flattenEntity e)) k v Map.empty x = Some y"
proof -
  from assms flatten_fold_origin [of "fst (flattenEntity e)" "DAList.impl_of (fst (flattenEntity e))" Map.empty x y]
  obtain k v where kv: "(k, v) \<in> set (DAList.impl_of (fst (flattenEntity e)))"
    and w: "flatten_property (fst (flattenEntity e)) k v Map.empty x = Some y"
    unfolding flattenEntity_snd by auto
  from kv have "DAList.lookup e k = Some v \<and> k \<notin> {''PartitionKey'', ''RowKey'', ''Timestamp''}"
    by (simp add: impl_of_lookup flattenEntity_fst split: if_splits)
  with w show ?thesis by blast
qed

lemma flattenEntity_lookup_cong:
  assumes "DAList.lookup e1 = DAList.lookup e2"
  shows "snd (flattenEntity e1) = snd (flattenEntity e2)"
proof -
  have fst_eq: "DAList.lookup (fst (flattenEntity a)) = DAList.lookup (fst (flattenEntity b))"
    if "DAList.lookup a = DAList.lookup b" for a b :: entity
    using that by (simp add: fun_eq_iff flattenEntity_fst)
  have half: "snd (flattenEntity b) x = Some y"
    if eq: "DAList.lookup a = DAList.lookup b" and s: "snd (flattenEntity a) x = Some y"
    for a b :: entity and x y
  proof -
    from flattenEntity_origin [OF s] obtain k v where
      "DAList.lookup a k = Some v" "k \<notin> {''PartitionKey'', ''RowKey'', ''Timestamp''}"
      "flatten_property (fst (flattenEntity a)) k v Map.empty x = Some y" by blast
    then show ?thesis
      using eq flatten_property_lookup_cong [OF fst_eq [OF eq], of k v Map.empty]
      by (intro flattenEntity_written [of b k v]) simp_all
  qed
  show ?thesis
  proof
    fix x
    show "snd (flattenEntity e1) x = snd (flattenEntity e2) x"
    proof (cases "snd (flattenEntity e1) x")
      case (Some y)
      with half [OF assms] show ?thesis by simp
    next
      case None
      show ?thesis
      proof (cases "snd (flattenEntity e2) x")
        case (Some y)
        with half [OF assms [symmetric]] None show ?thesis by simp
      next
        case n2: None
        with None show ?thesis by simp
      qed
    qed
  qed
qed

lemma flattenEntity_key_origin:
  assumes "snd (flattenEntity e) x = Some y"
  shows "\<exists>k v. DAList.lookup e k = Some v \<and> k \<notin> {''PartitionKey'', ''RowKey'', ''Timestamp''} \<and>
           \<not> HasPrefix k ''odata.'' \<and> \<not> HasSuffix k ''@odata.type'' \<and>
           (x = k \<or> x = k @ ''@odata.type'')"
proof -
  from flattenEntity_origin [OF assms] obtain k v where
    kv: "DAList.lookup e k = Some v" "k \<notin> {''PartitionKey'', ''RowKey'', ''Timestamp''}"
    and w: "flatten_property (fst (flattenEntity e)) k v Map.empty x = Some y" by blast
  from w have "x \<in> dom (flatten_property (fst (flattenEntity e)) k v Map.empty)" by auto
  from flatten_property_dom [OF this] kv show ?thesis by blast
qed

lemma flatten_property_companion:
  "flatten_property e k v Map.empty (k @ ''@odata.type'') = Some y \<Longrightarrow>
   flatten_property e k v Map.empty k \<noteq> None"
  by (auto simp: flatten_property_def split: if_splits option.splits go_value.splits)


subsection \<open>Concrete inputs\<close>

lemmas alist_eval = DAList.lookup.rep_eq DAList.delete.rep_eq impl_of_Alist

lemmas flatten_eval = flattenEntity_def flatten_property_def HasPrefix_def HasSuffix_def Let_def

lemma fmt_v_3: "fmt_v 0x4008000000000000 = ''3''"
  by (simp add: fmt_defs f64_defs upto.simps)

lemma scenario_in_list_order:
  "snd (flattenEntity (DAList.Alist
      [(''PartitionKey'', GoString ''p''), (''RowKey'', GoString ''r''), (''Timestamp'', GoString ''t''),
       (''count'', GoFloat64 0x4008000000000000), (''count@odata.type'', GoString ''Edm.Int64''),
       (''active'', GoBool True), (''name'', GoString ''x'')])) =
   [''count'' \<mapsto> GoString ''3'', ''count@odata.type'' \<mapsto> GoString ''Edm.Int64'',
    ''active'' \<mapsto> GoString ''true'', ''active@odata.type'' \<mapsto> GoString ''Edm.Boolean'',
    ''name'' \<mapsto> GoString ''x'']"
  by (simp add: flatten_eval alist_eval fmt_v_3)

lemma scenario_lookup:
  "DAList.lookup (DAList.Alist
      [(''PartitionKey'', GoString ''p''), (''RowKey'', GoString ''r''), (''Timestamp'', GoString ''t''),
       (''count'', GoFloat64 0x4008000000000000), (''count@odata.type'', GoString ''Edm.Int64''),
       (''active'', GoBool True), (''name'', GoString ''x'')]) =
   [''PartitionKey'' \<mapsto> GoString ''p'', ''RowKey'' \<mapsto> GoString ''r'',
    ''Timestamp'' \<mapsto> GoString ''t'', ''count'' \<mapsto> GoFloat64 0x4008000000000000,
    ''count@odata.type'' \<mapsto> GoString ''Edm.Int64'', ''active'' \<mapsto> GoBool True,
    ''name'' \<mapsto> GoString ''x'']"
  by (rule ext) (simp add: alist_eval)

lemma fmt_v_35: "fmt_v 0x400c000000000000 = ''3.5''"
  by (simp add: fmt_defs f64_defs upto.simps)

text \<open>
  A float half way between two 17-digit decimals, 1125899906842624.75: the even last
  digit is taken.
\<close>

lemma fmt_v_half_even: "fmt_v 0x4310000000000003 = ''1.1258999068426248e+15''"
  by (simp add: fmt_defs f64_defs upto.simps)

lemma fmt_f_35: "fmt_f 0x400c000000000000 = ''3.500000''"
  by (simp add: fmt_defs f64_defs)

lemma fmt_v_123: "fmt_v 0x405ec7df3b645a1d = ''123.123''"
  by (simp add: fmt_defs f64_defs upto.simps)

lemma fmt_f_123: "fmt_f 0x405ec7df3b645a1d = ''123.123000''"
  by (simp add: fmt_defs f64_defs)

lemma not_integral_35:
  "\<not> float64_eq 0x400c000000000000 (float64_of_int64 (int64_of_float64 0x400c000000000000))"
  by (simp add: conv_defs f64_defs)

lemma not_integral_123:
  "\<not> float64_eq 0x405ec7df3b645a1d (float64_of_int64 (int64_of_float64 0x405ec7df3b645a1d))"
  by (simp add: conv_defs f64_defs)

lemma ghost_not_annotation: "\<not> HasSuffix ''ghost'' ''@odata.type''"
  by (simp add: HasSuffix_def)





section \<open>The claims\<close>

text \<open>
  Claim C1. For an input mapping with the contents of the end-to-end scenario, in
  whatever order the map is ranged over, the output is exactly the mapping the scenario
  gives (the number 3.0 is the float \<open>0x4008000000000000\<close>).
\<close>

theorem scenario:
  assumes "DAList.lookup e =
    [''PartitionKey'' \<mapsto> GoString ''p'', ''RowKey'' \<mapsto> GoString ''r'',
     ''Timestamp'' \<mapsto> GoString ''t'', ''count'' \<mapsto> GoFloat64 0x4008000000000000,
     ''count@odata.type'' \<mapsto> GoString ''Edm.Int64'', ''active'' \<mapsto> GoBool True,
     ''name'' \<mapsto> GoString ''x'']"
  shows "snd (flattenEntity e) =
    [''count'' \<mapsto> GoString ''3'', ''count@odata.type'' \<mapsto> GoString ''Edm.Int64'',
     ''active'' \<mapsto> GoString ''true'', ''active@odata.type'' \<mapsto> GoString ''Edm.Boolean'',
     ''name'' \<mapsto> GoString ''x'']"
  using flattenEntity_lookup_cong [OF assms [folded scenario_lookup]]
  by (simp only: scenario_in_list_order)

text \<open>The scenario's input, ranged over in the order it is written in.\<close>

theorem scenario_witness:
  "snd (flattenEntity (DAList.Alist
      [(''PartitionKey'', GoString ''p''), (''RowKey'', GoString ''r''), (''Timestamp'', GoString ''t''),
       (''count'', GoFloat64 0x4008000000000000), (''count@odata.type'', GoString ''Edm.Int64''),
       (''active'', GoBool True), (''name'', GoString ''x'')])) =
   [''count'' \<mapsto> GoString ''3'', ''count@odata.type'' \<mapsto> GoString ''Edm.Int64'',
    ''active'' \<mapsto> GoString ''true'', ''active@odata.type'' \<mapsto> GoString ''Edm.Boolean'',
    ''name'' \<mapsto> GoString ''x'']"
  by (rule scenario) (rule scenario_lookup)

text \<open>
  Claim C2 fails on the code. For a property annotated \<^verbatim>\<open>Edm.Double\<close> the loop calls
  \<^verbatim>\<open>fmt.Sprintf("%f", v)\<close>: the float 123.123 (\<open>0x405ec7df3b645a1d\<close>) comes out as
  \<^verbatim>\<open>123.123000\<close>, where the same value without its annotation comes out as
  \<^verbatim>\<open>123.123\<close>.
\<close>

theorem annotated_double_six_digits:
  "snd (flattenEntity (DAList.Alist
      [(''x'', GoFloat64 0x405ec7df3b645a1d), (''x@odata.type'', GoString ''Edm.Double'')])) =
     [''x'' \<mapsto> GoString ''123.123000'', ''x@odata.type'' \<mapsto> GoString ''Edm.Double''] \<and>
   snd (flattenEntity (DAList.Alist [(''x'', GoFloat64 0x405ec7df3b645a1d)])) =
     [''x'' \<mapsto> GoString ''123.123'', ''x@odata.type'' \<mapsto> GoString ''Edm.Double'']"
  by (simp add: flatten_eval alist_eval fmt_v_123 fmt_f_123 not_integral_123)

text \<open>
  Claim C3, as amended. The call changes the map it is given: after it returns, the three
  reserved keys are gone from the input mapping, and every other key holds the value it
  held before.
\<close>

theorem input_after_flattenEntity:
  "DAList.lookup (fst (flattenEntity e)) =
     (\<lambda>k. if k \<in> {''PartitionKey'', ''RowKey'', ''Timestamp''} then None else DAList.lookup e k)"
  by (rule ext) (rule flattenEntity_fst)

text \<open>
  Claim C3 as stated fails: an input that holds \<^verbatim>\<open>PartitionKey\<close> no longer holds it
  after the call.
\<close>

theorem input_is_modified_counterexample:
  "DAList.lookup (fst (flattenEntity (DAList.Alist [(''PartitionKey'', GoString ''p'')]))) ''PartitionKey''
     \<noteq> DAList.lookup (DAList.Alist [(''PartitionKey'', GoString ''p'')]) ''PartitionKey''"
  unfolding flattenEntity_fst by (simp add: DAList.lookup.rep_eq impl_of_Alist)

text \<open>
  Claim C4 fails on the code, by the same call. Decoding the float 3.5
  (\<open>0x400c000000000000\<close>) gives the string \<^verbatim>\<open>3.5\<close> annotated \<^verbatim>\<open>Edm.Double\<close>;
  decoding that output again formats a string with \<^verbatim>\<open>%f\<close>, which Go reports as a bad
  verb.
\<close>

theorem redecode_changes_double:
  "snd (flattenEntity (DAList.Alist [(''x'', GoFloat64 0x400c000000000000)])) =
     [''x'' \<mapsto> GoString ''3.5'', ''x@odata.type'' \<mapsto> GoString ''Edm.Double''] \<and>
   snd (flattenEntity (DAList.Alist
      [(''x'', GoString ''3.5''), (''x@odata.type'', GoString ''Edm.Double'')])) =
     [''x'' \<mapsto> GoString ''%!f(string=3.5)'', ''x@odata.type'' \<mapsto> GoString ''Edm.Double'']"
  by (simp add: flatten_eval alist_eval fmt_v_35 not_integral_35)

text \<open>
  Claim C5. When the annotation of a property \<open>k\<close> names none of the five types, neither
  \<open>k\<close> nor \<^verbatim>\<open>k@odata.type\<close> is in the output, and every translatable property of
  the input is. The property \<open>k\<close> is one the loop processes, so not itself an annotation
  key. The function has no failing branch: it returns a mapping for every input.
\<close>

theorem unrecognized_type_dropped:
  assumes "DAList.lookup e k = Some v"
    and "DAList.lookup e (k @ ''@odata.type'') = Some dtype"
    and "\<not> recognized_type dtype"
    and "\<not> HasSuffix k ''@odata.type''"
  shows "snd (flattenEntity e) k = None \<and> snd (flattenEntity e) (k @ ''@odata.type'') = None \<and>
         (\<forall>k'. translatable e k' \<longrightarrow> k' \<in> dom (snd (flattenEntity e)))"
proof -
  have skip: "flatten_property (fst (flattenEntity e)) k v' Map.empty = Map.empty" for v'
    using assms(2,3)
    by (auto simp: flatten_property_def flattenEntity_fst recognized_type_def HasSuffix_def
        split: option.splits)
  have none: "snd (flattenEntity e) x = None" if "x = k \<or> x = k @ ''@odata.type''" for x
  proof (cases "snd (flattenEntity e) x")
    case None
    then show ?thesis .
  next
    case (Some y)
    from flattenEntity_origin [OF this] obtain k' v' where
      kv: "DAList.lookup e k' = Some v'"
      and w: "flatten_property (fst (flattenEntity e)) k' v' Map.empty x = Some y" by blast
    from w have "x \<in> dom (flatten_property (fst (flattenEntity e)) k' v' Map.empty)" by auto
    from flatten_property_dom [OF this] that assms(4) have "k' = k" by auto
    with w skip show ?thesis by simp
  qed
  have "k' \<in> dom (snd (flattenEntity e))" if t: "translatable e k'" for k'
  proof -
    from t obtain v' where kv: "DAList.lookup e k' = Some v'" and pk: "property_key k'"
      by (auto simp: translatable_def split: option.splits)
    from t kv pk have "flatten_property (fst (flattenEntity e)) k' v' Map.empty k' \<noteq> None"
      by (auto simp: translatable_def flatten_property_def flattenEntity_fst recognized_type_def
          property_key_def HasSuffix_def split: option.splits go_value.splits)
    then obtain z where "flatten_property (fst (flattenEntity e)) k' v' Map.empty k' = Some z"
      by auto
    from flattenEntity_written [OF kv _ this] pk show ?thesis
      by (auto simp: property_key_def)
  qed
  with none show ?thesis by simp
qed

text \<open>The spec's example: \<^verbatim>\<open>status@odata.type = "Edm.Unsupported"\<close>.\<close>

theorem unrecognized_type_dropped_witness:
  "DAList.lookup (DAList.Alist
      [(''status'', GoString ''ok''), (''status@odata.type'', GoString ''Edm.Unsupported''),
       (''name'', GoString ''x'')]) ''status'' = Some (GoString ''ok'') \<and>
   DAList.lookup (DAList.Alist
      [(''status'', GoString ''ok''), (''status@odata.type'', GoString ''Edm.Unsupported''),
       (''name'', GoString ''x'')]) (''status'' @ ''@odata.type'') = Some (GoString ''Edm.Unsupported'') \<and>
   \<not> recognized_type (GoString ''Edm.Unsupported'') \<and>
   \<not> HasSuffix ''status'' ''@odata.type'' \<and>
   snd (flattenEntity (DAList.Alist
      [(''status'', GoString ''ok''), (''status@odata.type'', GoString ''Edm.Unsupported''),
       (''name'', GoString ''x'')])) ''status'' = None \<and>
   snd (flattenEntity (DAList.Alist
      [(''status'', GoString ''ok''), (''status@odata.type'', GoString ''Edm.Unsupported''),
       (''name'', GoString ''x'')])) (''status'' @ ''@odata.type'') = None \<and>
   translatable (DAList.Alist
      [(''status'', GoString ''ok''), (''status@odata.type'', GoString ''Edm.Unsupported''),
       (''name'', GoString ''x'')]) ''name'' \<and>
   ''name'' \<in> dom (snd (flattenEntity (DAList.Alist
      [(''status'', GoString ''ok''), (''status@odata.type'', GoString ''Edm.Unsupported''),
       (''name'', GoString ''x'')])))"
proof -
  have a: "DAList.lookup (DAList.Alist
      [(''status'', GoString ''ok''), (''status@odata.type'', GoString ''Edm.Unsupported''),
       (''name'', GoString ''x'')]) ''status'' = Some (GoString ''ok'')"
    by (simp add: alist_eval)
  have b: "DAList.lookup (DAList.Alist
      [(''status'', GoString ''ok''), (''status@odata.type'', GoString ''Edm.Unsupported''),
       (''name'', GoString ''x'')]) (''status'' @ ''@odata.type'') = Some (GoString ''Edm.Unsupported'')"
    by (simp add: alist_eval)
  have c: "\<not> recognized_type (GoString ''Edm.Unsupported'')"
    by (simp add: recognized_type_def)
  have d: "\<not> HasSuffix ''status'' ''@odata.type''"
    by (simp add: HasSuffix_def)
  have t: "translatable (DAList.Alist
      [(''status'', GoString ''ok''), (''status@odata.type'', GoString ''Edm.Unsupported''),
       (''name'', GoString ''x'')]) ''name''"
    by (simp add: translatable_def property_key_def HasPrefix_def HasSuffix_def alist_eval)
  from unrecognized_type_dropped [OF a b c d] a b c d t show ?thesis by blast
qed

text \<open>
  Claim C6. For every input mapping, none of the three reserved keys
  \<^verbatim>\<open>PartitionKey\<close>, \<^verbatim>\<open>RowKey\<close>, \<^verbatim>\<open>Timestamp\<close> is a key of the output, whatever
  values they carry in the input.
\<close>

theorem reserved_keys_not_in_output:
  "snd (flattenEntity e) ''PartitionKey'' = None \<and>
   snd (flattenEntity e) ''RowKey'' = None \<and>
   snd (flattenEntity e) ''Timestamp'' = None"
proof -
  have "snd (flattenEntity e) x = None"
    if x: "x \<in> {''PartitionKey'', ''RowKey'', ''Timestamp''}" for x
  proof (cases "snd (flattenEntity e) x")
    case None
    then show ?thesis .
  next
    case (Some y)
    from flattenEntity_key_origin [OF this] obtain k where
      k: "k \<notin> {''PartitionKey'', ''RowKey'', ''Timestamp''}" "x = k \<or> x = k @ ''@odata.type''"
      by blast
    from x reserved_no_suffix have "\<not> HasSuffix x ''@odata.type''" by auto
    with k x show ?thesis by auto
  qed
  then show ?thesis by simp
qed





text \<open>
  Claim C9. No key of the output starts with \<^verbatim>\<open>odata.\<close>, and every key of the output
  is either a key of the input that is neither reserved nor metadata, or the companion
  \<^verbatim>\<open>k@odata.type\<close> of such a key \<open>k\<close> that is itself in the output. A key ending in
  \<^verbatim>\<open>@odata.type\<close> is no property key, so it is in the output only as a companion:
  never copied for its own sake.
\<close>

theorem output_keys:
  assumes "snd (flattenEntity e) x = Some y"
  shows "\<not> HasPrefix x ''odata.'' \<and>
         (\<exists>k v. DAList.lookup e k = Some v \<and> property_key k \<and>
            (x = k \<or> (x = k @ ''@odata.type'' \<and> snd (flattenEntity e) k \<noteq> None)))"
proof -
  from flattenEntity_origin [OF assms] obtain k v where
    kv: "DAList.lookup e k = Some v" "k \<notin> {''PartitionKey'', ''RowKey'', ''Timestamp''}"
    and w: "flatten_property (fst (flattenEntity e)) k v Map.empty x = Some y" by blast
  from w have "x \<in> dom (flatten_property (fst (flattenEntity e)) k v Map.empty)" by auto
  from flatten_property_dom [OF this]
  have k: "\<not> HasPrefix k ''odata.''" "\<not> HasSuffix k ''@odata.type''"
    and x: "x = k \<or> x = k @ ''@odata.type''" by auto
  have pk: "property_key k" using kv(2) k by (simp add: property_key_def)
  have nopre: "\<not> HasPrefix x ''odata.''"
    using x k(1) HasPrefix_odata_append [of k] by auto
  have "x = k \<or> (x = k @ ''@odata.type'' \<and> snd (flattenEntity e) k \<noteq> None)"
  proof (cases "x = k")
    case True
    then show ?thesis by simp
  next
    case False
    with x have xk: "x = k @ ''@odata.type''" by simp
    with w flatten_property_companion [of "fst (flattenEntity e)" k v y]
    obtain z where "flatten_property (fst (flattenEntity e)) k v Map.empty k = Some z" by auto
    from flattenEntity_written [OF kv this] xk show ?thesis by simp
  qed
  with nopre kv(1) pk show ?thesis by blast
qed

text \<open>
  The spec's example: an input with \<^verbatim>\<open>odata.etag\<close>, \<^verbatim>\<open>foo\<close> and
  \<^verbatim>\<open>foo@odata.type\<close>.
\<close>

theorem output_keys_witness:
  "snd (flattenEntity (DAList.Alist
      [(''odata.etag'', GoString ''W1''), (''foo@odata.type'', GoString ''Edm.String''),
       (''foo'', GoString ''bar'')])) ''foo@odata.type'' = Some (GoString ''Edm.String'') \<and>
   \<not> HasPrefix ''foo@odata.type'' ''odata.'' \<and>
   (\<exists>k v. DAList.lookup (DAList.Alist
      [(''odata.etag'', GoString ''W1''), (''foo@odata.type'', GoString ''Edm.String''),
       (''foo'', GoString ''bar'')]) k = Some v \<and> property_key k \<and>
      (''foo@odata.type'' = k \<or>
       (''foo@odata.type'' = k @ ''@odata.type'' \<and>
        snd (flattenEntity (DAList.Alist
          [(''odata.etag'', GoString ''W1''), (''foo@odata.type'', GoString ''Edm.String''),
           (''foo'', GoString ''bar'')])) k \<noteq> None)))"
proof -
  have h: "snd (flattenEntity (DAList.Alist
      [(''odata.etag'', GoString ''W1''), (''foo@odata.type'', GoString ''Edm.String''),
       (''foo'', GoString ''bar'')])) ''foo@odata.type'' = Some (GoString ''Edm.String'')"
    by (simp add: flatten_eval alist_eval)
  from output_keys [OF h] h show ?thesis by simp
qed

text \<open>
  Claim C10, as amended. When the input holds an annotation key \<^verbatim>\<open>k@odata.type\<close> and
  no key \<open>k\<close>, the output does not hold \<^verbatim>\<open>k@odata.type\<close>, and it does not hold \<open>k\<close>
  either unless \<open>k\<close> itself ends in \<^verbatim>\<open>@odata.type\<close>.
\<close>

theorem orphan_annotation_discarded:
  assumes "DAList.lookup e (k @ ''@odata.type'') = Some a"
    and "DAList.lookup e k = None"
  shows "snd (flattenEntity e) (k @ ''@odata.type'') = None \<and>
         (\<not> HasSuffix k ''@odata.type'' \<longrightarrow> snd (flattenEntity e) k = None)"
proof -
  have ann: "snd (flattenEntity e) (k @ ''@odata.type'') = None"
  proof (cases "snd (flattenEntity e) (k @ ''@odata.type'')")
    case None
    then show ?thesis .
  next
    case (Some y)
    from flattenEntity_key_origin [OF this] assms(2) show ?thesis by auto
  qed
  have "snd (flattenEntity e) k = None" if "\<not> HasSuffix k ''@odata.type''"
  proof (cases "snd (flattenEntity e) k")
    case None
    then show ?thesis .
  next
    case (Some y)
    from flattenEntity_key_origin [OF this] assms(2) that show ?thesis by auto
  qed
  with ann show ?thesis by simp
qed

text \<open>An orphan annotation \<^verbatim>\<open>ghost@odata.type\<close> beside a string property.\<close>

theorem orphan_annotation_discarded_witness:
  "DAList.lookup (DAList.Alist
      [(''name'', GoString ''x''), (''ghost@odata.type'', GoString ''Edm.Int32'')])
      (''ghost'' @ ''@odata.type'') = Some (GoString ''Edm.Int32'') \<and>
   DAList.lookup (DAList.Alist
      [(''name'', GoString ''x''), (''ghost@odata.type'', GoString ''Edm.Int32'')]) ''ghost'' = None \<and>
   snd (flattenEntity (DAList.Alist
      [(''name'', GoString ''x''), (''ghost@odata.type'', GoString ''Edm.Int32'')]))
      (''ghost'' @ ''@odata.type'') = None \<and>
   snd (flattenEntity (DAList.Alist
      [(''name'', GoString ''x''), (''ghost@odata.type'', GoString ''Edm.Int32'')])) ''ghost'' = None"
proof -
  have a: "DAList.lookup (DAList.Alist
      [(''name'', GoString ''x''), (''ghost@odata.type'', GoString ''Edm.Int32'')])
      (''ghost'' @ ''@odata.type'') = Some (GoString ''Edm.Int32'')"
    by (simp add: alist_eval)
  have b: "DAList.lookup (DAList.Alist
      [(''name'', GoString ''x''), (''ghost@odata.type'', GoString ''Edm.Int32'')]) ''ghost'' = None"
    by (simp add: alist_eval)
  from orphan_annotation_discarded [OF a b] ghost_not_annotation a b show ?thesis by blast
qed

text \<open>
  Claim C10 as stated fails where \<open>k\<close> is itself an annotation key: with the orphan
  \<^verbatim>\<open>a@odata.type@odata.type\<close> and the boolean property \<^verbatim>\<open>a\<close>, the key
  \<^verbatim>\<open>a@odata.type\<close> is absent from the input and present in the output, as the
  companion the loop writes for \<^verbatim>\<open>a\<close>.
\<close>

theorem orphan_annotation_counterexample:
  "DAList.lookup (DAList.Alist
      [(''a'', GoBool True), (''a@odata.type@odata.type'', GoString ''Edm.String'')])
      (''a@odata.type'' @ ''@odata.type'') = Some (GoString ''Edm.String'') \<and>
   DAList.lookup (DAList.Alist
      [(''a'', GoBool True), (''a@odata.type@odata.type'', GoString ''Edm.String'')])
      ''a@odata.type'' = None \<and>
   snd (flattenEntity (DAList.Alist
      [(''a'', GoBool True), (''a@odata.type@odata.type'', GoString ''Edm.String'')]))
      ''a@odata.type'' = Some (GoString ''Edm.Boolean'')"
  by (simp add: flatten_eval alist_eval)

end
